theory Spec2Isabelle
  imports Complex_Main
begin

section \<open>Tensors\<close>

text \<open>
  The notebook \<^verbatim>\<open>Practice/CNN/cnn.ipynb\<close> works on two kinds of tensors: image batches
  and feature maps (batch x channel x height x width) and matrices (the flattened features
  and the class scores). A tensor is its sizes, its elements in row-major order and the
  flag \<^verbatim>\<open>requires_grad\<close> that the automatic differentiation reads.

  The element type \<open>'a\<close> is left open: the layers only use \<open>0\<close>, \<open>+\<close>, \<open>*\<close> and the
  order, and nothing below assumes a law of arithmetic about them.
\<close>

record 'a tensor4 =
  batch :: nat
  channels :: nat
  height :: nat
  width :: nat
  elems4 :: "'a list"
  grad4 :: bool

record 'a tensor2 =
  rows :: nat
  cols :: nat
  elems2 :: "'a list"
  grad2 :: bool

datatype error =
    InvalidArgument
  | ChannelMismatch
  | KernelTooLarge
  | OutputTooSmall
  | ReshapeInvalid
  | FeatureMismatch
  | EmptyReduction
  | BroadcastMismatch
  | NoGradient
  | ZeroDivisionError

definition and_then :: "error + 'b \<Rightarrow> ('b \<Rightarrow> error + 'c) \<Rightarrow> error + 'c" where
  "and_then r f = (case r of Inl e \<Rightarrow> Inl e | Inr v \<Rightarrow> f v)"

definition at4 :: "'a tensor4 \<Rightarrow> nat \<Rightarrow> nat \<Rightarrow> nat \<Rightarrow> nat \<Rightarrow> 'a" where
  "at4 x n c i j = elems4 x ! (((n * channels x + c) * height x + i) * width x + j)"

definition at2 :: "'a tensor2 \<Rightarrow> nat \<Rightarrow> nat \<Rightarrow> 'a" where
  "at2 x r i = elems2 x ! (r * cols x + i)"

definition shape4 :: "'a tensor4 \<Rightarrow> nat list" where
  "shape4 x = [batch x, channels x, height x, width x]"

text \<open>\<^verbatim>\<open>t.data\<close>: the same sizes and elements, cut off from the gradient graph.\<close>

definition detach4 :: "'a tensor4 \<Rightarrow> 'a tensor4" where
  "detach4 x = x\<lparr>grad4 := False\<rparr>"

definition detach2 :: "'a tensor2 \<Rightarrow> 'a tensor2" where
  "detach2 x = x\<lparr>grad2 := False\<rparr>"

definition sum_elems :: "'a::{zero,plus} list \<Rightarrow> 'a" where
  "sum_elems xs = foldl (+) 0 xs"

fun maximum :: "'a::{zero,ord} list \<Rightarrow> 'a" where
  "maximum [] = 0"
| "maximum (x # xs) = foldl max x xs"

section \<open>The layers of torch.nn that the model uses\<close>

subsection \<open>nn.Conv2d\<close>

record 'a Conv2d =
  in_channels :: nat
  out_channels :: nat
  kernel_size :: nat
  stride :: nat
  padding :: nat
  weight :: "'a list"
  bias :: "'a list"

text \<open>The input read through its zero padding of \<open>p\<close> rows and columns on every side.\<close>

definition padded :: "'a::zero tensor4 \<Rightarrow> nat \<Rightarrow> nat \<Rightarrow> nat \<Rightarrow> nat \<Rightarrow> nat \<Rightarrow> 'a" where
  "padded x p n c u v =
     (if p \<le> u \<and> u < height x + p \<and> p \<le> v \<and> v < width x + p
      then at4 x n c (u - p) (v - p) else 0)"

definition conv_size :: "nat \<Rightarrow> nat \<Rightarrow> nat \<Rightarrow> nat \<Rightarrow> nat" where
  "conv_size n k s p = (n + 2 * p - k) div s + 1"

definition conv_out ::
  "'a::{zero,plus,times} Conv2d \<Rightarrow> 'a tensor4 \<Rightarrow> nat \<Rightarrow> nat \<Rightarrow> nat \<Rightarrow> nat \<Rightarrow> 'a" where
  "conv_out L x n oc i j =
     (let k = kernel_size L in
      bias L ! oc +
      sum_elems
        [weight L ! (((oc * in_channels L + c) * k + a) * k + b) *
           padded x (padding L) n c (i * stride L + a) (j * stride L + b).
         c \<leftarrow> [0..<in_channels L], a \<leftarrow> [0..<k], b \<leftarrow> [0..<k]])"

text \<open>
  The first argument of every forward function is the gradient mode
  (\<^verbatim>\<open>torch.is_grad_enabled()\<close>). A layer with parameters gives a result that requires
  gradients exactly when the mode is on, as its parameters do.
\<close>

definition Conv2d_forward ::
  "bool \<Rightarrow> 'a::{zero,plus,times} Conv2d \<Rightarrow> 'a tensor4 \<Rightarrow> error + 'a tensor4" where
  "Conv2d_forward ge L x =
     (let k = kernel_size L; s = stride L; p = padding L in
      if k = 0 \<or> s = 0 then Inl InvalidArgument
      else if channels x \<noteq> in_channels L then Inl ChannelMismatch
      else if height x + 2 * p < k \<or> width x + 2 * p < k then Inl KernelTooLarge
      else
        let ho = conv_size (height x) k s p; wo = conv_size (width x) k s p in
        Inr \<lparr>batch = batch x, channels = out_channels L, height = ho, width = wo,
             elems4 = [conv_out L x n oc i j.
                        n \<leftarrow> [0..<batch x], oc \<leftarrow> [0..<out_channels L],
                        i \<leftarrow> [0..<ho], j \<leftarrow> [0..<wo]],
             grad4 = ge\<rparr>)"

subsection \<open>nn.ReLU\<close>

definition ReLU_forward :: "bool \<Rightarrow> 'a::{zero,ord} tensor4 \<Rightarrow> error + 'a tensor4" where
  "ReLU_forward ge x = Inr (x\<lparr>elems4 := map (max 0) (elems4 x), grad4 := ge \<and> grad4 x\<rparr>)"

subsection \<open>nn.MaxPool2d (no padding, no dilation, ceil_mode=False)\<close>

definition pool_size :: "nat \<Rightarrow> nat \<Rightarrow> nat \<Rightarrow> nat" where
  "pool_size n k s = (n - k) div s + 1"

definition pool_out :: "nat \<Rightarrow> nat \<Rightarrow> 'a::{zero,ord} tensor4 \<Rightarrow> nat \<Rightarrow> nat \<Rightarrow> nat \<Rightarrow> nat \<Rightarrow> 'a" where
  "pool_out k s x n c i j =
     maximum [at4 x n c (i * s + a) (j * s + b). a \<leftarrow> [0..<k], b \<leftarrow> [0..<k]]"

definition MaxPool2d_forward ::
  "bool \<Rightarrow> nat \<Rightarrow> nat \<Rightarrow> 'a::{zero,ord} tensor4 \<Rightarrow> error + 'a tensor4" where
  "MaxPool2d_forward ge k s x =
     (if k = 0 \<or> s = 0 then Inl InvalidArgument
      else if height x < k \<or> width x < k then Inl OutputTooSmall
      else
        let ho = pool_size (height x) k s; wo = pool_size (width x) k s in
        Inr \<lparr>batch = batch x, channels = channels x, height = ho, width = wo,
             elems4 = [pool_out k s x n c i j.
                        n \<leftarrow> [0..<batch x], c \<leftarrow> [0..<channels x],
                        i \<leftarrow> [0..<ho], j \<leftarrow> [0..<wo]],
             grad4 = (ge \<and> grad4 x)\<rparr>)"

subsection \<open>nn.Sequential\<close>

datatype 'a layer = Conv "'a Conv2d" | ReLU | MaxPool2d nat nat

fun layer_forward ::
  "bool \<Rightarrow> 'a::{zero,plus,times,ord} layer \<Rightarrow> 'a tensor4 \<Rightarrow> error + 'a tensor4" where
  "layer_forward ge (Conv L) x = Conv2d_forward ge L x"
| "layer_forward ge ReLU x = ReLU_forward ge x"
| "layer_forward ge (MaxPool2d k s) x = MaxPool2d_forward ge k s x"

fun Sequential_forward ::
  "bool \<Rightarrow> 'a::{zero,plus,times,ord} layer list \<Rightarrow> 'a tensor4 \<Rightarrow> error + 'a tensor4" where
  "Sequential_forward ge [] x = Inr x"
| "Sequential_forward ge (L # Ls) x =
     (case layer_forward ge L x of
        Inl e \<Rightarrow> Inl e
      | Inr y \<Rightarrow> Sequential_forward ge Ls y)"

subsection \<open>Tensor.reshape(r, -1)\<close>

text \<open>
  The second size is inferred from the number of elements. With \<open>r = 0\<close> it cannot be
  inferred and the call raises; otherwise \<open>r\<close> has to divide the number of elements.
\<close>

definition reshape_rows :: "nat \<Rightarrow> 'a tensor4 \<Rightarrow> error + 'a tensor2" where
  "reshape_rows r x =
     (let numel = batch x * channels x * height x * width x in
      if r = 0 \<or> numel mod r \<noteq> 0 then Inl ReshapeInvalid
      else Inr \<lparr>rows = r, cols = numel div r, elems2 = elems4 x, grad2 = grad4 x\<rparr>)"

subsection \<open>nn.Linear\<close>

record 'a Linear =
  in_features :: nat
  out_features :: nat
  fc_weight :: "'a list"
  fc_bias :: "'a list"

definition linear_out :: "'a::{zero,plus,times} Linear \<Rightarrow> 'a tensor2 \<Rightarrow> nat \<Rightarrow> nat \<Rightarrow> 'a" where
  "linear_out L x r oc =
     fc_bias L ! oc +
     sum_elems [at2 x r i * fc_weight L ! (oc * in_features L + i). i \<leftarrow> [0..<in_features L]]"

definition Linear_forward ::
  "bool \<Rightarrow> 'a::{zero,plus,times} Linear \<Rightarrow> 'a tensor2 \<Rightarrow> error + 'a tensor2" where
  "Linear_forward ge L x =
     (if cols x \<noteq> in_features L then Inl FeatureMismatch
      else Inr \<lparr>rows = rows x, cols = out_features L,
                elems2 = [linear_out L x r oc. r \<leftarrow> [0..<rows x], oc \<leftarrow> [0..<out_features L]],
                grad2 = ge\<rparr>)"

section \<open>The model: class CNN\<close>

text \<open>
  The values of the parameter tensors, in the order of \<^verbatim>\<open>model.parameters()\<close>. The
  constructor draws the initial values at random; here they are its argument.
\<close>

record 'a params =
  conv1_weight :: "'a list"
  conv1_bias :: "'a list"
  conv2_weight :: "'a list"
  conv2_bias :: "'a list"
  fc1_weight :: "'a list"
  fc1_bias :: "'a list"

record 'a CNN =
  layer1 :: "'a layer list"
  layer2 :: "'a layer list"
  fc1 :: "'a Linear"
  training :: bool

definition CNN_init :: "nat \<Rightarrow> 'a params \<Rightarrow> 'a CNN" where
  "CNN_init num_classes P =
     \<lparr>layer1 = [Conv \<lparr>in_channels = 1, out_channels = 16, kernel_size = 5, stride = 1,
                       padding = 2, weight = conv1_weight P, bias = conv1_bias P\<rparr>,
                 ReLU,
                 MaxPool2d 2 2],
      layer2 = [Conv \<lparr>in_channels = 16, out_channels = 32, kernel_size = 5, stride = 1,
                       padding = 2, weight = conv2_weight P, bias = conv2_bias P\<rparr>,
                 ReLU,
                 MaxPool2d 2 2],
      fc1 = \<lparr>in_features = 7 * 7 * 32, out_features = num_classes,
             fc_weight = fc1_weight P, fc_bias = fc1_bias P\<rparr>,
      training = True\<rparr>"

definition forward ::
  "bool \<Rightarrow> 'a::{zero,plus,times,ord} CNN \<Rightarrow> 'a tensor4 \<Rightarrow> error + 'a tensor2" where
  "forward ge m x =
     (case Sequential_forward ge (layer1 m) x of
        Inl e \<Rightarrow> Inl e
      | Inr out1 \<Rightarrow>
          (case Sequential_forward ge (layer2 m) out1 of
             Inl e \<Rightarrow> Inl e
           | Inr out2 \<Rightarrow>
               (case reshape_rows (batch out2) out2 of
                  Inl e \<Rightarrow> Inl e
                | Inr out3 \<Rightarrow> Linear_forward ge (fc1 m) out3)))"

section \<open>The notebook's session\<close>

text \<open>
  A batch as the data loader yields it: the stacked images and one integer label per
  image. \<^verbatim>\<open>.to(device)\<close> moves a tensor and leaves its values alone, so it is the
  identity here.
\<close>

type_synonym 'a batch = "'a tensor4 \<times> int list"

text \<open>
  The loader collates \<open>k\<close> samples of the dataset into \<open>k\<close> stacked images and
  their \<open>k\<close> labels, so every batch it yields is \<open>paired\<close>.
\<close>

definition paired :: "'a batch \<Rightarrow> bool" where
  "paired b = (batch (fst b) = length (snd b))"

text \<open>
  What the notebook calls and the library owns: the loss (\<^verbatim>\<open>nn.CrossEntropyLoss\<close>), the
  gradients that \<^verbatim>\<open>loss.backward()\<close> computes for the parameters, and Adam's update of
  one parameter tensor and of its own state \<open>'s\<close>. They are arguments of the loops.
\<close>

record ('a, 's) library =
  criterion :: "'a tensor2 \<Rightarrow> int list \<Rightarrow> error + 'a"
  autograd :: "'a CNN \<Rightarrow> 'a tensor4 \<Rightarrow> int list \<Rightarrow> 'a list list"
  adam_update :: "'s \<Rightarrow> nat \<Rightarrow> 'a list \<Rightarrow> 'a list \<Rightarrow> 'a list"
  adam_advance :: "'s \<Rightarrow> 'a list list \<Rightarrow> 's"

datatype line = ACC rat

datatype event =
    Forward nat nat
  | Loss nat nat
  | ZeroGrad nat nat
  | Backward nat nat
  | Step nat nat
  | EvalMode
  | NoGradForward
  | PrintACC

text \<open>
  The global variables of the notebook: the model, the \<^verbatim>\<open>.grad\<close> of its parameters
  (\<open>None\<close> until the first backward pass), the optimizer's state, the two counters of the
  evaluation block and what was printed. \<open>trace\<close> is not a variable of the notebook: it
  records the library calls in the order in which they are made.
\<close>

record ('a, 's) session =
  model :: "'a CNN"
  grads :: "'a list list option"
  optimizer :: 's
  correct :: int
  total :: int
  console :: "line list"
  trace :: "event list"

subsection \<open>model.parameters() and the in-place update of the parameters\<close>

fun layer_parameters :: "'a layer \<Rightarrow> 'a list list" where
  "layer_parameters (Conv L) = [weight L, bias L]"
| "layer_parameters ReLU = []"
| "layer_parameters (MaxPool2d k s) = []"

definition parameters :: "'a CNN \<Rightarrow> 'a list list" where
  "parameters m =
     concat (map layer_parameters (layer1 m)) @ concat (map layer_parameters (layer2 m)) @
     [fc_weight (fc1 m), fc_bias (fc1 m)]"

text \<open>Writing new values into the parameter tensors, in the order of \<open>parameters\<close>.\<close>

fun load_layers :: "'a layer list \<Rightarrow> 'a list list \<Rightarrow> 'a layer list \<times> 'a list list" where
  "load_layers [] vs = ([], vs)"
| "load_layers (Conv L # Ls) (w # b # vs) =
     (case load_layers Ls vs of (Ls', vs') \<Rightarrow> (Conv (L\<lparr>weight := w, bias := b\<rparr>) # Ls', vs'))"
| "load_layers (L # Ls) vs =
     (case load_layers Ls vs of (Ls', vs') \<Rightarrow> (L # Ls', vs'))"

definition load_parameters :: "'a CNN \<Rightarrow> 'a list list \<Rightarrow> 'a CNN" where
  "load_parameters m vs =
     (case load_layers (layer1 m) vs of (l1, vs1) \<Rightarrow>
      case load_layers (layer2 m) vs1 of (l2, vs2) \<Rightarrow>
      (case vs2 of
         w # b # _ \<Rightarrow> m\<lparr>layer1 := l1, layer2 := l2, fc1 := (fc1 m)\<lparr>fc_weight := w, fc_bias := b\<rparr>\<rparr>
       | _ \<Rightarrow> m\<lparr>layer1 := l1, layer2 := l2\<rparr>))"

subsection \<open>One training step\<close>

definition model_call ::
  "bool \<Rightarrow> event \<Rightarrow> 'a::{zero,plus,times,ord} tensor4 \<Rightarrow> ('a, 's) session \<Rightarrow>
     error + ('a tensor2 \<times> ('a, 's) session)" where
  "model_call ge ev images st =
     (case forward ge (model st) images of
        Inl e \<Rightarrow> Inl e
      | Inr outputs \<Rightarrow> Inr (outputs, st\<lparr>trace := trace st @ [ev]\<rparr>))"

text \<open>The loss is its value and whether it requires gradients, as the outputs do.\<close>

definition criterion_call ::
  "('a, 's) library \<Rightarrow> event \<Rightarrow> 'a tensor2 \<Rightarrow> int list \<Rightarrow> ('a, 's) session \<Rightarrow>
     error + (('a \<times> bool) \<times> ('a, 's) session)" where
  "criterion_call T ev outputs labels st =
     (case criterion T outputs labels of
        Inl e \<Rightarrow> Inl e
      | Inr v \<Rightarrow> Inr ((v, grad2 outputs), st\<lparr>trace := trace st @ [ev]\<rparr>))"

text \<open>\<^verbatim>\<open>optimizer.zero_grad()\<close>: every gradient that exists is set to zero in place.\<close>

definition zero_grad :: "event \<Rightarrow> ('a::zero, 's) session \<Rightarrow> ('a, 's) session" where
  "zero_grad ev st =
     st\<lparr>grads := map_option (map (map (\<lambda>_. 0))) (grads st), trace := trace st @ [ev]\<rparr>"

text \<open>
  \<^verbatim>\<open>loss.backward()\<close> raises when the loss does not require gradients; otherwise it adds
  the gradients to the ones stored.
\<close>

definition accumulate :: "'a::plus list list option \<Rightarrow> 'a list list \<Rightarrow> 'a list list" where
  "accumulate old g = (case old of None \<Rightarrow> g | Some gs \<Rightarrow> map2 (map2 (+)) gs g)"

definition loss_backward ::
  "('a::plus, 's) library \<Rightarrow> event \<Rightarrow> 'a tensor4 \<Rightarrow> int list \<Rightarrow> 'a \<times> bool \<Rightarrow>
     ('a, 's) session \<Rightarrow> error + ('a, 's) session" where
  "loss_backward T ev images labels loss st =
     (if \<not> snd loss then Inl NoGradient
      else Inr (st\<lparr>grads := Some (accumulate (grads st) (autograd T (model st) images labels)),
                   trace := trace st @ [ev]\<rparr>))"

text \<open>
  \<^verbatim>\<open>optimizer.step()\<close>: each parameter tensor is replaced by Adam's update of it; with
  no gradients stored nothing is updated.
\<close>

definition optimizer_step :: "('a, 's) library \<Rightarrow> event \<Rightarrow> ('a, 's) session \<Rightarrow> ('a, 's) session" where
  "optimizer_step T ev st =
     (case grads st of
        None \<Rightarrow> st\<lparr>trace := trace st @ [ev]\<rparr>
      | Some gs \<Rightarrow>
          (let ps = parameters (model st) in
           st\<lparr>model := load_parameters (model st)
                  [adam_update T (optimizer st) i (ps ! i) (gs ! i). i \<leftarrow> [0..<length ps]],
              optimizer := adam_advance T (optimizer st) gs,
              trace := trace st @ [ev]\<rparr>))"

definition train_batch ::
  "('a::{zero,plus,times,ord}, 's) library \<Rightarrow> nat \<Rightarrow> nat \<Rightarrow> 'a batch \<Rightarrow>
     ('a, 's) session \<Rightarrow> error + ('a, 's) session" where
  "train_batch T epoch i b st =
     (case b of (images, labels) \<Rightarrow>
      and_then (model_call True (Forward epoch i) images st) (\<lambda>(outputs, st1).
      and_then (criterion_call T (Loss epoch i) outputs labels st1) (\<lambda>(loss, st2).
      and_then (loss_backward T (Backward epoch i) images labels loss
                  (zero_grad (ZeroGrad epoch i) st2)) (\<lambda>st3.
      Inr (optimizer_step T (Step epoch i) st3)))))"

subsection \<open>The training loop\<close>

text \<open>\<^verbatim>\<open>for i, (images, labels) in enumerate(train_data_loader)\<close>, from index \<open>i\<close> on.\<close>

fun train_batches ::
  "('a::{zero,plus,times,ord}, 's) library \<Rightarrow> nat \<Rightarrow> nat \<Rightarrow> 'a batch list \<Rightarrow>
     ('a, 's) session \<Rightarrow> error + ('a, 's) session" where
  "train_batches T epoch i [] st = Inr st"
| "train_batches T epoch i (b # bs) st =
     and_then (train_batch T epoch i b st) (train_batches T epoch (Suc i) bs)"

text \<open>
  \<^verbatim>\<open>for epoch in range(num_epoch)\<close>. The loader shuffles: \<open>loader epoch\<close> is the list of
  batches in the order drawn in that epoch.
\<close>

fun train_epochs ::
  "('a::{zero,plus,times,ord}, 's) library \<Rightarrow> (nat \<Rightarrow> 'a batch list) \<Rightarrow> nat list \<Rightarrow>
     ('a, 's) session \<Rightarrow> error + ('a, 's) session" where
  "train_epochs T loader [] st = Inr st"
| "train_epochs T loader (epoch # es) st =
     and_then (train_batches T epoch 0 (loader epoch) st) (train_epochs T loader es)"

definition train ::
  "('a::{zero,plus,times,ord}, 's) library \<Rightarrow> nat \<Rightarrow> (nat \<Rightarrow> 'a batch list) \<Rightarrow>
     ('a, 's) session \<Rightarrow> error + ('a, 's) session" where
  "train T num_epoch loader st = train_epochs T loader [0..<num_epoch] st"

subsection \<open>model.eval() and the evaluation block\<close>

definition model_eval :: "('a, 's) session \<Rightarrow> ('a, 's) session" where
  "model_eval st = st\<lparr>model := (model st)\<lparr>training := False\<rparr>, trace := trace st @ [EvalMode]\<rparr>"

text \<open>The index of the first greatest element of a row.\<close>

fun argmax_from :: "nat \<Rightarrow> 'a::ord \<Rightarrow> nat \<Rightarrow> 'a list \<Rightarrow> nat" where
  "argmax_from best v i [] = best"
| "argmax_from best v i (x # xs) =
     (if v < x then argmax_from i x (Suc i) xs else argmax_from best v (Suc i) xs)"

fun argmax :: "'a::ord list \<Rightarrow> nat" where
  "argmax [] = 0"
| "argmax (x # xs) = argmax_from 0 x 1 xs"

definition row :: "'a tensor2 \<Rightarrow> nat \<Rightarrow> 'a list" where
  "row x r = take (cols x) (drop (r * cols x) (elems2 x))"

text \<open>\<^verbatim>\<open>torch.max(x, 1)\<close>: the greatest value of each row and its index.\<close>

definition max_dim1 :: "'a::{zero,ord} tensor2 \<Rightarrow> error + ('a list \<times> int list)" where
  "max_dim1 x =
     (if cols x = 0 then Inl EmptyReduction
      else Inr ([maximum (row x r). r \<leftarrow> [0..<rows x]],
                [int (argmax (row x r)). r \<leftarrow> [0..<rows x]]))"

text \<open>
  \<^verbatim>\<open>predicted == labels\<close> on two vectors: element by element when the lengths agree, a
  vector of one element is compared with every element of the other, and any other pair
  of lengths raises.
\<close>

definition eq_tensors :: "int list \<Rightarrow> int list \<Rightarrow> error + bool list" where
  "eq_tensors ps ls =
     (if length ps = length ls then Inr (map2 (=) ps ls)
      else if length ls = 1 then Inr (map (\<lambda>p. p = hd ls) ps)
      else if length ps = 1 then Inr (map (\<lambda>l. hd ps = l) ls)
      else Inl BroadcastMismatch)"

definition test_batch ::
  "'a::{zero,plus,times,ord} batch \<Rightarrow> ('a, 's) session \<Rightarrow> error + ('a, 's) session" where
  "test_batch b st =
     (case b of (images, labels) \<Rightarrow>
      and_then (model_call False NoGradForward images st) (\<lambda>(outputs, st1).
      and_then (max_dim1 (detach2 outputs)) (\<lambda>(values, predicted).
      let st2 = st1\<lparr>total := total st1 + int (length labels)\<rparr> in
      and_then (eq_tensors predicted labels) (\<lambda>eq.
      Inr (st2\<lparr>correct := correct st2 + int (length (filter id eq))\<rparr>)))))"

fun test_batches ::
  "'a::{zero,plus,times,ord} batch list \<Rightarrow> ('a, 's) session \<Rightarrow> error + ('a, 's) session" where
  "test_batches [] st = Inr st"
| "test_batches (b # bs) st = and_then (test_batch b st) (test_batches bs)"

text \<open>
  The block under \<^verbatim>\<open>with torch.no_grad()\<close>. \<^verbatim>\<open>100*correct/total\<close> is Python's true
  division: it raises on \<open>total = 0\<close>, and its value is the quotient as a rational number.
\<close>

definition evaluation ::
  "'a::{zero,plus,times,ord} batch list \<Rightarrow> ('a, 's) session \<Rightarrow> error + ('a, 's) session" where
  "evaluation bs st =
     and_then (test_batches bs (st\<lparr>correct := 0, total := 0\<rparr>)) (\<lambda>st1.
     if total st1 = 0 then Inl ZeroDivisionError
     else Inr (st1\<lparr>console := console st1 @ [ACC (of_int (100 * correct st1) / of_int (total st1))],
                  trace := trace st1 @ [PrintACC]\<rparr>))"

text \<open>The cells in the order in which the notebook runs them.\<close>

definition run_cells ::
  "('a::{zero,plus,times,ord}, 's) library \<Rightarrow> nat \<Rightarrow> (nat \<Rightarrow> 'a batch list) \<Rightarrow> 'a batch list \<Rightarrow>
     ('a, 's) session \<Rightarrow> error + ('a, 's) session" where
  "run_cells T num_epoch train_loader test_loader st =
     and_then (train T num_epoch train_loader st) (\<lambda>st1.
     evaluation test_loader (model_eval st1))"

section \<open>What the claims compare the loops with\<close>

text \<open>
  The library calls that the spec expects for the batch at index \<open>i\<close> of an epoch, in
  its order; between the loss and the backward pass the notebook also clears the gradients.
\<close>

definition batch_events :: "nat \<Rightarrow> nat \<Rightarrow> event list" where
  "batch_events epoch i =
     [Forward epoch i, Loss epoch i, ZeroGrad epoch i, Backward epoch i, Step epoch i]"

definition training_events :: "nat \<Rightarrow> (nat \<Rightarrow> 'a batch list) \<Rightarrow> event list" where
  "training_events num_epoch loader =
     concat (map (\<lambda>epoch. concat (map (batch_events epoch) [0..<length (loader epoch)]))
               [0..<num_epoch])"

definition evaluation_events :: "'a batch list \<Rightarrow> event list" where
  "evaluation_events bs = replicate (length bs) NoGradForward @ [PrintACC]"

text \<open>
  The number of positions of a batch at which the index of the greatest output of the
  model is the label.
\<close>

definition matches :: "'a::{zero,plus,times,ord} CNN \<Rightarrow> 'a batch \<Rightarrow> int" where
  "matches m b =
     (case forward False m (fst b) of
        Inl e \<Rightarrow> 0
      | Inr outputs \<Rightarrow>
          int (length (filter (\<lambda>i. int (argmax (row outputs i)) = snd b ! i)
                         [0..<length (snd b)])))"

text \<open>The inputs that the forward pass of the model takes (see \<open>forward_CNN_Inr_iff\<close>).\<close>

definition accepted :: "'a tensor4 \<Rightarrow> bool" where
  "accepted x = (0 < batch x \<and> channels x = 1 \<and> (height x div 4) * (width x div 4) = 49)"

section \<open>Concrete inputs\<close>

text \<open>
  \<^verbatim>\<open>torch.zeros(n, c, h, w)\<close> over the integers, and a parameter set of zeros with the
  sizes that the constructor of \<open>CNN\<close> gives its tensors.
\<close>

definition zeros :: "nat \<Rightarrow> nat \<Rightarrow> nat \<Rightarrow> nat \<Rightarrow> int tensor4" where
  "zeros n c h w =
     \<lparr>batch = n, channels = c, height = h, width = w,
      elems4 = replicate (n * c * h * w) 0, grad4 = False\<rparr>"

definition zero_params :: "nat \<Rightarrow> int params" where
  "zero_params num_classes =
     \<lparr>conv1_weight = replicate (16 * 1 * 5 * 5) 0, conv1_bias = replicate 16 0,
      conv2_weight = replicate (32 * 16 * 5 * 5) 0, conv2_bias = replicate 32 0,
      fc1_weight = replicate (num_classes * (7 * 7 * 32)) 0,
      fc1_bias = replicate num_classes 0\<rparr>"

text \<open>
  A stand-in for the library: a loss that is always 0, gradients that are all 1, an
  update that subtracts the gradient, and no optimizer state. The session starts with the
  zero parameters, before any cell has printed.
\<close>

definition toy_library :: "(int, unit) library" where
  "toy_library =
     \<lparr>criterion = (\<lambda>outputs labels. Inr 0),
      autograd = (\<lambda>m images labels. map (map (\<lambda>_. 1)) (parameters m)),
      adam_update = (\<lambda>s i p g. map2 (-) p g),
      adam_advance = (\<lambda>s gs. s)\<rparr>"

definition session0 :: "(int, unit) session" where
  "session0 =
     \<lparr>model = CNN_init 10 (zero_params 10), grads = None, optimizer = (),
      correct = 0, total = 0, console = [], trace = []\<rparr>"

section \<open>Shapes through the layers\<close>

lemma Conv2d_forward_shape:
  "Conv2d_forward ge L x = Inr y \<Longrightarrow>
     batch y = batch x \<and> channels y = out_channels L \<and>
     height y = conv_size (height x) (kernel_size L) (stride L) (padding L) \<and>
     width y = conv_size (width x) (kernel_size L) (stride L) (padding L)"
  by (auto simp: Conv2d_forward_def Let_def split: if_splits)

lemma ReLU_forward_shape:
  "ReLU_forward ge x = Inr y \<Longrightarrow>
     batch y = batch x \<and> channels y = channels x \<and> height y = height x \<and> width y = width x"
  by (auto simp: ReLU_forward_def)

lemma MaxPool2d_forward_shape:
  "MaxPool2d_forward ge k s x = Inr y \<Longrightarrow>
     batch y = batch x \<and> channels y = channels x \<and>
     height y = pool_size (height x) k s \<and> width y = pool_size (width x) k s"
  by (auto simp: MaxPool2d_forward_def Let_def split: if_splits)

lemma layer_forward_batch: "layer_forward ge L x = Inr y \<Longrightarrow> batch y = batch x"
  by (cases L)
     (auto dest: Conv2d_forward_shape ReLU_forward_shape MaxPool2d_forward_shape)

lemma Sequential_forward_batch: "Sequential_forward ge Ls x = Inr y \<Longrightarrow> batch y = batch x"
proof (induction Ls arbitrary: x)
  case Nil
  then show ?case by simp
next
  case (Cons L Ls)
  then obtain z where z: "layer_forward ge L x = Inr z" and y: "Sequential_forward ge Ls z = Inr y"
    by (auto split: sum.splits)
  from Cons.IH [OF y] layer_forward_batch [OF z] show ?case by simp
qed

lemma reshape_rows_shape: "reshape_rows r x = Inr y \<Longrightarrow> rows y = r"
  by (auto simp: reshape_rows_def Let_def split: if_splits)

lemma Linear_forward_shape:
  "Linear_forward ge L x = Inr y \<Longrightarrow> rows y = rows x \<and> cols y = out_features L"
  by (auto simp: Linear_forward_def split: if_splits)

lemma conv_same: "0 < n \<Longrightarrow> conv_size n 5 (Suc 0) 2 = n"
  by (simp add: conv_size_def)

lemma pool_half: "2 \<le> n \<Longrightarrow> pool_size n 2 2 = n div 2"
  by (simp add: pool_size_def) 

lemma block_Inr_iff:
  assumes "kernel_size L = 5" "stride L = 1" "padding L = 2"
  shows "(\<exists>y. Sequential_forward ge [Conv L, ReLU, MaxPool2d 2 2] x = Inr y) \<longleftrightarrow>
     channels x = in_channels L \<and> 2 \<le> height x \<and> 2 \<le> width x"
  using assms
  by (auto simp: Conv2d_forward_def ReLU_forward_def MaxPool2d_forward_def Let_def conv_same
      split: sum.splits if_splits)

lemma block_shape:
  assumes "kernel_size L = 5" "stride L = 1" "padding L = 2"
    and "Sequential_forward ge [Conv L, ReLU, MaxPool2d 2 2] x = Inr y"
  shows "batch y = batch x \<and> channels y = out_channels L \<and>
     height y = height x div 2 \<and> width y = width x div 2"
  using assms
  by (auto simp: Conv2d_forward_def ReLU_forward_def MaxPool2d_forward_def Let_def conv_same pool_half
      split: sum.splits if_splits)

lemma reshape_rows_batch:
  "reshape_rows (batch x) x = Inr y \<longleftrightarrow>
     0 < batch x \<and>
     y = \<lparr>rows = batch x, cols = channels x * height x * width x, elems2 = elems4 x, grad2 = grad4 x\<rparr>"
  by (auto simp: reshape_rows_def Let_def mult.assoc)

lemma Linear_forward_Inr_iff: "(\<exists>y. Linear_forward ge L x = Inr y) \<longleftrightarrow> cols x = in_features L"
  by (auto simp: Linear_forward_def)

lemma quarter_49: "(h div 4) * (w div 4) = 49 \<Longrightarrow> 2 \<le> h \<and> 2 \<le> w \<and> 2 \<le> h div 2 \<and> 2 \<le> w div 2"
  for h w :: nat
proof -
  assume a: "(h div 4) * (w div 4) = 49"
  then have "0 < h div 4" "0 < w div 4" by (auto intro: gr0I)
  then show ?thesis by presburger
qed

lemma CNN_init_layer1:
  "layer1 (CNN_init num_classes P) =
     [Conv \<lparr>in_channels = 1, out_channels = 16, kernel_size = 5, stride = 1,
             padding = 2, weight = conv1_weight P, bias = conv1_bias P\<rparr>, ReLU, MaxPool2d 2 2]"
  by (simp add: CNN_init_def)

lemma CNN_init_layer2:
  "layer2 (CNN_init num_classes P) =
     [Conv \<lparr>in_channels = 16, out_channels = 32, kernel_size = 5, stride = 1,
             padding = 2, weight = conv2_weight P, bias = conv2_bias P\<rparr>, ReLU, MaxPool2d 2 2]"
  by (simp add: CNN_init_def)

lemma CNN_init_fc1:
  "fc1 (CNN_init num_classes P) =
     \<lparr>in_features = 7 * 7 * 32, out_features = num_classes,
      fc_weight = fc1_weight P, fc_bias = fc1_bias P\<rparr>"
  by (simp add: CNN_init_def)

lemma forward_CNN_Inr_iff:
  "(\<exists>y. forward ge (CNN_init num_classes P) x = Inr y) \<longleftrightarrow>
     0 < batch x \<and> channels x = 1 \<and> (height x div 4) * (width x div 4) = 49"
  (is "?L \<longleftrightarrow> ?R")
proof
  let ?c1 = "\<lparr>in_channels = 1, out_channels = 16, kernel_size = 5, stride = 1,
                       padding = 2, weight = conv1_weight P, bias = conv1_bias P\<rparr>"
  let ?c2 = "\<lparr>in_channels = 16, out_channels = 32, kernel_size = 5, stride = 1,
                       padding = 2, weight = conv2_weight P, bias = conv2_bias P\<rparr>"
  let ?b1 = "[Conv ?c1, ReLU, MaxPool2d 2 2]"
  let ?b2 = "[Conv ?c2, ReLU, MaxPool2d 2 2]"
  let ?fc = "\<lparr>in_features = 7 * 7 * 32, out_features = num_classes,
             fc_weight = fc1_weight P, fc_bias = fc1_bias P\<rparr>"
  have fwd: "forward ge (CNN_init num_classes P) x =
     (case Sequential_forward ge ?b1 x of Inl e \<Rightarrow> Inl e | Inr out1 \<Rightarrow>
      case Sequential_forward ge ?b2 out1 of Inl e \<Rightarrow> Inl e | Inr out2 \<Rightarrow>
      case reshape_rows (batch out2) out2 of Inl e \<Rightarrow> Inl e | Inr out3 \<Rightarrow>
      Linear_forward ge ?fc out3)"
    by (simp only: forward_def CNN_init_layer1 CNN_init_layer2 CNN_init_fc1)
  {
    assume ?L
    then obtain y where y: "forward ge (CNN_init num_classes P) x = Inr y" ..
    from y obtain o1 where o1: "Sequential_forward ge ?b1 x = Inr o1"
      unfolding fwd by (auto split: sum.splits)
    from y o1 obtain o2 where o2: "Sequential_forward ge ?b2 o1 = Inr o2"
      unfolding fwd by (auto split: sum.splits)
    from y o1 o2 obtain o3 where o3: "reshape_rows (batch o2) o2 = Inr o3"
      and fc: "Linear_forward ge ?fc o3 = Inr y"
      unfolding fwd by (auto split: sum.splits)
    have c1: "channels x = 1 \<and> 2 \<le> height x \<and> 2 \<le> width x"
      using block_Inr_iff [of ?c1 ge x] o1 by auto
    have s1: "batch o1 = batch x \<and> channels o1 = 16 \<and> height o1 = height x div 2 \<and> width o1 = width x div 2"
      using block_shape [OF _ _ _ o1] by simp
    have s2: "batch o2 = batch x \<and> channels o2 = 32 \<and> height o2 = height x div 2 div 2 \<and> width o2 = width x div 2 div 2"
      using block_shape [OF _ _ _ o2] s1 by simp
    from o3 have b: "0 < batch o2" and c3: "cols o3 = channels o2 * height o2 * width o2"
      by (auto simp: reshape_rows_batch)
    from fc have "cols o3 = 1568" using Linear_forward_Inr_iff [of ge ?fc o3] by auto
    with c3 s2 have "32 * ((height x div 2 div 2) * (width x div 2 div 2)) = 32 * 49"
      by (simp add: mult.assoc)
    then have "(height x div 2 div 2) * (width x div 2 div 2) = 49" by simp
    then have "(height x div 4) * (width x div 4) = 49"
      by (simp add: div_mult2_eq [symmetric])
    with b s2 c1 show ?R by simp
  }
  {
    assume r: ?R
    then have q: "2 \<le> height x \<and> 2 \<le> width x \<and> 2 \<le> height x div 2 \<and> 2 \<le> width x div 2"
      using quarter_49 by blast
    from r q obtain o1 where o1: "Sequential_forward ge ?b1 x = Inr o1"
      using block_Inr_iff [of ?c1 ge x] by auto
    have s1: "batch o1 = batch x \<and> channels o1 = 16 \<and> height o1 = height x div 2 \<and> width o1 = width x div 2"
      using block_shape [OF _ _ _ o1] by simp
    from q s1 obtain o2 where o2: "Sequential_forward ge ?b2 o1 = Inr o2"
      using block_Inr_iff [of ?c2 ge o1] by auto
    have s2: "batch o2 = batch x \<and> channels o2 = 32 \<and> height o2 = height x div 2 div 2 \<and> width o2 = width x div 2 div 2"
      using block_shape [OF _ _ _ o2] s1 by simp
    define o3 where "o3 = \<lparr>rows = batch o2, cols = channels o2 * height o2 * width o2,
      elems2 = elems4 o2, grad2 = grad4 o2\<rparr>"
    from r s2 have "0 < batch o2" by simp
    then have o3: "reshape_rows (batch o2) o2 = Inr o3"
      unfolding o3_def using reshape_rows_batch [of o2] by blast
    have c3: "cols o3 = channels o2 * height o2 * width o2"
      by (simp add: o3_def)
    from r have "(height x div 2 div 2) * (width x div 2 div 2) = 49"
      by (simp add: div_mult2_eq [symmetric])
    with c3 s2 have "cols o3 = 1568" by (simp add: mult.assoc)
    then obtain y where "Linear_forward ge ?fc o3 = Inr y"
      using Linear_forward_Inr_iff [of ge ?fc o3] by auto
    with o1 o2 o3 show ?L unfolding fwd by simp
  }
qed


lemma forward_rows: "forward ge m x = Inr y \<Longrightarrow> rows y = batch x"
  unfolding forward_def
  by (auto split: sum.splits
      dest!: Sequential_forward_batch reshape_rows_shape Linear_forward_shape)

lemma forward_cols: "forward ge m x = Inr y \<Longrightarrow> cols y = out_features (fc1 m)"
  unfolding forward_def
  by (auto split: sum.splits dest!: Linear_forward_shape)

section \<open>The gradient mode does not reach the values\<close>

lemma detach4_eq_iff:
  "detach4 x = detach4 x' \<longleftrightarrow>
     batch x = batch x' \<and> channels x = channels x' \<and> height x = height x' \<and>
     width x = width x' \<and> elems4 x = elems4 x'"
  by (cases x; cases x') (simp add: detach4_def)

lemma detach2_eq_iff:
  "detach2 x = detach2 x' \<longleftrightarrow> rows x = rows x' \<and> cols x = cols x' \<and> elems2 x = elems2 x'"
  by (cases x; cases x') (simp add: detach2_def)

lemma at4_detach: "detach4 x = detach4 x' \<Longrightarrow> at4 x = at4 x'"
  by (auto simp: detach4_eq_iff at4_def fun_eq_iff)

lemma padded_detach:
  assumes "detach4 x = detach4 x'"
  shows "padded x = padded x'"
proof -
  have a: "at4 x = at4 x'" using assms by (rule at4_detach)
  have h: "height x = height x'" "width x = width x'"
    using assms by (simp_all add: detach4_eq_iff)
  show ?thesis by (intro ext) (simp add: padded_def a h)
qed

lemma conv_out_detach:
  assumes "detach4 x = detach4 x'"
  shows "conv_out L x = conv_out L x'"
proof -
  have p: "padded x = padded x'" using assms by (rule padded_detach)
  show ?thesis by (intro ext) (simp add: conv_out_def p)
qed

lemma pool_out_detach:
  assumes "detach4 x = detach4 x'"
  shows "pool_out k s x = pool_out k s x'"
proof -
  have a: "at4 x = at4 x'" using assms by (rule at4_detach)
  show ?thesis by (intro ext) (simp add: pool_out_def a)
qed

lemma Conv2d_forward_detach:
  assumes "detach4 x = detach4 x'"
  shows "map_sum id detach4 (Conv2d_forward ge L x) = map_sum id detach4 (Conv2d_forward ge' L x')"
proof -
  have c: "conv_out L x = conv_out L x'" using assms by (rule conv_out_detach)
  have f: "batch x = batch x'" "channels x = channels x'" "height x = height x'"
    "width x = width x'"
    using assms by (simp_all add: detach4_eq_iff)
  show ?thesis by (simp add: Conv2d_forward_def Let_def detach4_def c f)
qed

lemma ReLU_forward_detach:
  "detach4 x = detach4 x' \<Longrightarrow>
     map_sum id detach4 (ReLU_forward ge x) = map_sum id detach4 (ReLU_forward ge' x')"
  by (cases x; cases x') (simp add: ReLU_forward_def detach4_def)

lemma MaxPool2d_forward_detach:
  assumes "detach4 x = detach4 x'"
  shows "map_sum id detach4 (MaxPool2d_forward ge k s x) =
     map_sum id detach4 (MaxPool2d_forward ge' k s x')"
proof -
  have c: "pool_out k s x = pool_out k s x'" using assms by (rule pool_out_detach)
  have f: "batch x = batch x'" "channels x = channels x'" "height x = height x'"
    "width x = width x'"
    using assms by (simp_all add: detach4_eq_iff)
  show ?thesis by (simp add: MaxPool2d_forward_def Let_def detach4_def c f)
qed

lemma layer_forward_detach:
  "detach4 x = detach4 x' \<Longrightarrow>
     map_sum id detach4 (layer_forward ge L x) = map_sum id detach4 (layer_forward ge' L x')"
  by (cases L) (simp_all add: Conv2d_forward_detach ReLU_forward_detach MaxPool2d_forward_detach)

lemma Sequential_forward_detach:
  "detach4 x = detach4 x' \<Longrightarrow>
     map_sum id detach4 (Sequential_forward ge Ls x) =
     map_sum id detach4 (Sequential_forward ge' Ls x')"
proof (induction Ls arbitrary: x x')
  case Nil
  then show ?case by simp
next
  case (Cons L Ls)
  note step = layer_forward_detach [OF Cons.prems, of ge L ge']
  show ?case
  proof (cases "layer_forward ge L x")
    case (Inl e)
    with step have "layer_forward ge' L x' = Inl e"
      by (cases "layer_forward ge' L x'") auto
    with Inl show ?thesis by simp
  next
    case (Inr y)
    with step obtain y' where y': "layer_forward ge' L x' = Inr y'" "detach4 y = detach4 y'"
      by (cases "layer_forward ge' L x'") auto
    with Inr Cons.IH [OF y'(2)] show ?thesis by simp
  qed
qed

lemma reshape_rows_detach:
  "detach4 x = detach4 x' \<Longrightarrow>
     map_sum id detach2 (reshape_rows (batch x) x) = map_sum id detach2 (reshape_rows (batch x') x')"
  by (simp add: reshape_rows_def Let_def detach4_eq_iff detach2_def)

lemma linear_out_detach: "detach2 x = detach2 x' \<Longrightarrow> linear_out L x = linear_out L x'"
  by (intro ext) (simp add: detach2_eq_iff linear_out_def at2_def)

lemma Linear_forward_detach:
  assumes "detach2 x = detach2 x'"
  shows "map_sum id detach2 (Linear_forward ge L x) = map_sum id detach2 (Linear_forward ge' L x')"
proof -
  have c: "linear_out L x = linear_out L x'" using assms by (rule linear_out_detach)
  have f: "rows x = rows x'" "cols x = cols x'"
    using assms by (simp_all add: detach2_eq_iff)
  show ?thesis by (simp add: Linear_forward_def detach2_def c f)
qed

lemma forward_detach:
  assumes "layer1 m = layer1 m'" "layer2 m = layer2 m'" "fc1 m = fc1 m'"
  shows "map_sum id detach2 (forward ge m x) = map_sum id detach2 (forward ge' m' x)"
proof -
  note s1 = Sequential_forward_detach [OF refl, of ge "layer1 m'" x ge']
  show ?thesis
  proof (cases "Sequential_forward ge (layer1 m') x")
    case (Inl e)
    with s1 have "Sequential_forward ge' (layer1 m') x = Inl e"
      by (cases "Sequential_forward ge' (layer1 m') x") auto
    with Inl assms show ?thesis by (simp add: forward_def)
  next
    case a: (Inr o1)
    with s1 obtain p1 where p1: "Sequential_forward ge' (layer1 m') x = Inr p1" "detach4 o1 = detach4 p1"
      by (cases "Sequential_forward ge' (layer1 m') x") auto
    note s2 = Sequential_forward_detach [OF p1(2), of ge "layer2 m'" ge']
    show ?thesis
    proof (cases "Sequential_forward ge (layer2 m') o1")
      case (Inl e)
      with s2 have "Sequential_forward ge' (layer2 m') p1 = Inl e"
        by (cases "Sequential_forward ge' (layer2 m') p1") auto
      with Inl a p1 assms show ?thesis by (simp add: forward_def)
    next
      case b: (Inr o2)
      with s2 obtain p2 where p2: "Sequential_forward ge' (layer2 m') p1 = Inr p2" "detach4 o2 = detach4 p2"
        by (cases "Sequential_forward ge' (layer2 m') p1") auto
      note s3 = reshape_rows_detach [OF p2(2)]
      show ?thesis
      proof (cases "reshape_rows (batch o2) o2")
        case (Inl e)
        with s3 have "reshape_rows (batch p2) p2 = Inl e"
          by (cases "reshape_rows (batch p2) p2") auto
        with Inl a b p1 p2 assms show ?thesis by (simp add: forward_def)
      next
        case c: (Inr o3)
        with s3 obtain p3 where p3: "reshape_rows (batch p2) p2 = Inr p3" "detach2 o3 = detach2 p3"
          by (cases "reshape_rows (batch p2) p2") auto
        from Linear_forward_detach [OF p3(2), of ge "fc1 m'" ge'] a b c p1 p2 p3 assms
        show ?thesis by (simp add: forward_def)
      qed
    qed
  qed
qed

section \<open>The loops: order of the calls, counters, success\<close>

lemma and_then_Inr_iff: "and_then r f = Inr y \<longleftrightarrow> (\<exists>v. r = Inr v \<and> f v = Inr y)"
  by (cases r) (simp_all add: and_then_def)

lemma model_call_Inr_iff:
  "model_call ge ev images st = Inr (out, st1) \<longleftrightarrow>
     forward ge (model st) images = Inr out \<and> st1 = st\<lparr>trace := trace st @ [ev]\<rparr>"
  by (auto simp: model_call_def split: sum.splits)

lemma criterion_call_Inr_iff:
  "criterion_call T ev outputs labels st = Inr (loss, st1) \<longleftrightarrow>
     (\<exists>v. criterion T outputs labels = Inr v \<and> loss = (v, grad2 outputs)) \<and>
     st1 = st\<lparr>trace := trace st @ [ev]\<rparr>"
  by (auto simp: criterion_call_def split: sum.splits)

lemma optimizer_step_trace: "trace (optimizer_step T ev st) = trace st @ [ev]"
  by (simp add: optimizer_step_def Let_def split: option.splits)

lemma train_batch_Inr_iff:
  "train_batch T epoch i (images, labels) st = Inr st' \<longleftrightarrow>
     (\<exists>outputs v. forward True (model st) images = Inr outputs \<and>
        criterion T outputs labels = Inr v \<and> grad2 outputs \<and>
        st' = optimizer_step T (Step epoch i)
                (st\<lparr>grads := Some (accumulate (map_option (map (map (\<lambda>_. 0))) (grads st))
                                      (autograd T (model st) images labels)),
                    trace := trace st @ [Forward epoch i, Loss epoch i, ZeroGrad epoch i,
                                         Backward epoch i]\<rparr>))"
  by (auto simp: train_batch_def and_then_Inr_iff model_call_Inr_iff criterion_call_Inr_iff
        loss_backward_def zero_grad_def split: if_splits)

lemma train_batch_Inr:
  assumes "train_batch T epoch i b st = Inr st'"
  shows "\<exists>st3. model st3 = model st \<and>
           trace st3 = trace st @ [Forward epoch i, Loss epoch i, ZeroGrad epoch i, Backward epoch i] \<and>
           console st3 = console st \<and>
           st' = optimizer_step T (Step epoch i) st3"
proof -
  obtain images labels where b: "b = (images, labels)" by (cases b)
  from assms [unfolded b train_batch_Inr_iff] obtain st3 where
    "st3 = st\<lparr>grads := Some (accumulate (map_option (map (map (\<lambda>_. 0))) (grads st))
                                      (autograd T (model st) images labels)),
                    trace := trace st @ [Forward epoch i, Loss epoch i, ZeroGrad epoch i,
                                         Backward epoch i]\<rparr>"
    "st' = optimizer_step T (Step epoch i) st3"
    by blast
  then show ?thesis by (intro exI [of _ st3]) simp
qed

lemma train_batch_trace:
  "train_batch T epoch i b st = Inr st' \<Longrightarrow> trace st' = trace st @ batch_events epoch i"
  by (auto dest!: train_batch_Inr simp: optimizer_step_trace batch_events_def)

lemma train_batches_trace:
  "train_batches T epoch i bs st = Inr st' \<Longrightarrow>
     trace st' = trace st @ concat (map (batch_events epoch) [i..<i + length bs])"
proof (induction bs arbitrary: i st)
  case Nil
  then show ?case by simp
next
  case (Cons b bs)
  then obtain st1 where s1: "train_batch T epoch i b st = Inr st1"
    and s2: "train_batches T epoch (Suc i) bs st1 = Inr st'"
    by (auto simp: and_then_Inr_iff)
  have "[i..<i + length (b # bs)] = i # [Suc i..<Suc i + length bs]"
    by (simp add: upt_rec)
  with Cons.IH [OF s2] train_batch_trace [OF s1] show ?case by simp
qed

lemma train_epochs_trace:
  "train_epochs T loader es st = Inr st' \<Longrightarrow>
     trace st' = trace st @
       concat (map (\<lambda>epoch. concat (map (batch_events epoch) [0..<length (loader epoch)])) es)"
proof (induction es arbitrary: st)
  case Nil
  then show ?case by simp
next
  case (Cons e es)
  then obtain st1 where s1: "train_batches T e 0 (loader e) st = Inr st1"
    and s2: "train_epochs T loader es st1 = Inr st'"
    by (auto simp: and_then_Inr_iff)
  from Cons.IH [OF s2] train_batches_trace [OF s1] show ?case by simp
qed

lemma train_trace:
  "train T num_epoch loader st = Inr st' \<Longrightarrow>
     trace st' = trace st @ training_events num_epoch loader"
  by (simp add: train_def training_events_def train_epochs_trace)


lemma forward_training: "forward ge (m\<lparr>training := t\<rparr>) x = forward ge m x"
  by (simp add: forward_def cong: sum.case_cong)

lemma forward_grad: "forward ge m x = Inr y \<Longrightarrow> grad2 y = ge"
  unfolding forward_def
  by (auto simp: Linear_forward_def split: sum.splits if_splits)

lemma parameters_CNN:
  "parameters ((CNN_init nc P)\<lparr>training := t\<rparr>) =
     [conv1_weight P, conv1_bias P, conv2_weight P, conv2_bias P, fc1_weight P, fc1_bias P]"
  by (simp add: parameters_def CNN_init_def)

lemma load_parameters_CNN:
  "load_parameters ((CNN_init nc P)\<lparr>training := t\<rparr>) [a, b, c, d, e, f] =
     (CNN_init nc \<lparr>conv1_weight = a, conv1_bias = b, conv2_weight = c, conv2_bias = d,
                   fc1_weight = e, fc1_bias = f\<rparr>)\<lparr>training := t\<rparr>"
  by (simp add: load_parameters_def CNN_init_def)

lemma upt_6: "[0..<6] = [0, 1, 2, 3, 4, 5]"
  by (simp add: upt_rec)

lemma optimizer_step_CNN:
  assumes "model st = (CNN_init nc P)\<lparr>training := t\<rparr>"
  shows "\<exists>P'. model (optimizer_step T ev st) = (CNN_init nc P')\<lparr>training := t\<rparr>"
proof (cases "grads st")
  case None
  with assms show ?thesis by (auto simp: optimizer_step_def)
next
  case (Some gs)
  with assms show ?thesis
    by (simp add: optimizer_step_def Let_def parameters_CNN upt_6 load_parameters_CNN)
       (rule exI, rule refl)
qed

lemma forward_CNN_accepted:
  "accepted x \<Longrightarrow> \<exists>y. forward ge ((CNN_init nc P)\<lparr>training := t\<rparr>) x = Inr y"
  by (simp add: forward_training forward_CNN_Inr_iff accepted_def)

lemma train_batch_succeeds:
  assumes arch: "model st = (CNN_init nc P)\<lparr>training := t\<rparr>"
    and acc: "accepted (fst b)"
    and crit: "\<And>out ls. \<exists>v. criterion T out ls = Inr v"
  shows "\<exists>st' P'. train_batch T epoch i b st = Inr st' \<and>
           model st' = (CNN_init nc P')\<lparr>training := t\<rparr>"
proof -
  obtain images labels where b: "b = (images, labels)" by (cases b)
  from acc b obtain outputs where out: "forward True (model st) images = Inr outputs"
    using forward_CNN_accepted [where x = images and ge = True and nc = nc and P = P and t = t] arch
    by auto
  then have g: "grad2 outputs" by (simp add: forward_grad)
  from crit obtain v where v: "criterion T outputs labels = Inr v" by blast
  define st3 where "st3 = st\<lparr>grads := Some (accumulate (map_option (map (map (\<lambda>_. 0))) (grads st))
                                      (autograd T (model st) images labels)),
                    trace := trace st @ [Forward epoch i, Loss epoch i, ZeroGrad epoch i,
                                         Backward epoch i]\<rparr>"
  have "train_batch T epoch i b st = Inr (optimizer_step T (Step epoch i) st3)"
    unfolding b train_batch_Inr_iff st3_def using out g v by blast
  moreover have "model st3 = (CNN_init nc P)\<lparr>training := t\<rparr>"
    by (simp add: st3_def arch)
  from optimizer_step_CNN [OF this]
  obtain P' where "model (optimizer_step T (Step epoch i) st3) = (CNN_init nc P')\<lparr>training := t\<rparr>"
    by blast
  ultimately show ?thesis by blast
qed

lemma train_batches_succeeds:
  assumes arch: "model st = (CNN_init nc P)\<lparr>training := t\<rparr>"
    and acc: "\<forall>b\<in>set bs. accepted (fst b)"
    and crit: "\<And>out ls. \<exists>v. criterion T out ls = Inr v"
  shows "\<exists>st' P'. train_batches T epoch i bs st = Inr st' \<and>
           model st' = (CNN_init nc P')\<lparr>training := t\<rparr>"
  using arch acc
proof (induction bs arbitrary: i st P)
  case Nil
  then show ?case by auto
next
  case (Cons b bs)
  from train_batch_succeeds [OF Cons.prems(1) _ crit, of b epoch i] Cons.prems(2)
  obtain st1 P1 where s1: "train_batch T epoch i b st = Inr st1"
    and a1: "model st1 = (CNN_init nc P1)\<lparr>training := t\<rparr>"
    by auto
  from Cons.IH [OF a1, of "Suc i"] Cons.prems(2)
  obtain st' P' where "train_batches T epoch (Suc i) bs st1 = Inr st'"
    "model st' = (CNN_init nc P')\<lparr>training := t\<rparr>"
    by auto
  with s1 show ?case by (auto simp: and_then_def)
qed

lemma train_epochs_succeeds:
  assumes arch: "model st = (CNN_init nc P)\<lparr>training := t\<rparr>"
    and acc: "\<forall>epoch\<in>set es. \<forall>b\<in>set (loader epoch). accepted (fst b)"
    and crit: "\<And>out ls. \<exists>v. criterion T out ls = Inr v"
  shows "\<exists>st' P'. train_epochs T loader es st = Inr st' \<and>
           model st' = (CNN_init nc P')\<lparr>training := t\<rparr>"
  using arch acc
proof (induction es arbitrary: st P)
  case Nil
  then show ?case by auto
next
  case (Cons e es)
  from train_batches_succeeds [OF Cons.prems(1) _ crit, of "loader e" e 0] Cons.prems(2)
  obtain st1 P1 where s1: "train_batches T e 0 (loader e) st = Inr st1"
    and a1: "model st1 = (CNN_init nc P1)\<lparr>training := t\<rparr>"
    by auto
  from Cons.IH [OF a1] Cons.prems(2)
  obtain st' P' where "train_epochs T loader es st1 = Inr st'"
    "model st' = (CNN_init nc P')\<lparr>training := t\<rparr>"
    by auto
  with s1 show ?case by (auto simp: and_then_def)
qed

lemma train_succeeds:
  assumes arch: "model st = (CNN_init nc P)\<lparr>training := t\<rparr>"
    and acc: "\<forall>epoch<num_epoch. \<forall>b\<in>set (loader epoch). accepted (fst b)"
    and crit: "\<And>out ls. \<exists>v. criterion T out ls = Inr v"
  shows "\<exists>st' P'. train T num_epoch loader st = Inr st' \<and>
           model st' = (CNN_init nc P')\<lparr>training := t\<rparr>"
  unfolding train_def using train_epochs_succeeds [OF arch _ crit, of "[0..<num_epoch]" loader] acc
  by auto


lemma max_dim1_Inr_iff:
  "max_dim1 x = Inr (vs, ps) \<longleftrightarrow>
     cols x \<noteq> 0 \<and> vs = [maximum (row x r). r \<leftarrow> [0..<rows x]] \<and>
     ps = [int (argmax (row x r)). r \<leftarrow> [0..<rows x]]"
  by (auto simp: max_dim1_def)

lemma row_detach2: "row (detach2 x) = row x"
  by (intro ext) (simp add: row_def detach2_def)

lemma sizes_detach2: "rows (detach2 x) = rows x" "cols (detach2 x) = cols x"
  by (simp_all add: detach2_def)

lemma count_equal:
  assumes "length ps = length ls"
  shows "length (filter id (map2 (=) ps ls)) =
         length (filter (\<lambda>i. ps ! i = ls ! i) [0..<length ls])"
proof -
  have "map2 (=) ps ls = map (\<lambda>i. ps ! i = ls ! i) [0..<length ls]"
    using assms by (intro nth_equalityI) simp_all
  then show ?thesis by (simp add: filter_map comp_def)
qed

lemma eq_tensors_same_length:
  "length ps = length ls \<Longrightarrow> eq_tensors ps ls = Inr (map2 (=) ps ls)"
  by (simp add: eq_tensors_def)

lemma test_batch_frame:
  assumes "test_batch b st = Inr st'"
  shows "model st' = model st \<and> grads st' = grads st \<and> optimizer st' = optimizer st \<and>
         console st' = console st \<and> trace st' = trace st @ [NoGradForward] \<and>
         total st' = total st + int (length (snd b))"
  using assms
  by (cases b)
     (auto simp: test_batch_def and_then_Inr_iff model_call_Inr_iff Let_def)

lemma test_batch_paired:
  assumes ok: "test_batch b st = Inr st'" and p: "paired b"
  shows "correct st' = correct st + matches (model st) b"
proof -
  obtain images labels where b: "b = (images, labels)" by (cases b)
  from ok obtain outputs vs ps eq where
    out: "forward False (model st) images = Inr outputs" and
    mx: "max_dim1 (detach2 outputs) = Inr (vs, ps)" and
    eq: "eq_tensors ps labels = Inr eq" and
    c: "correct st' = correct st + int (length (filter id eq))"
    unfolding b
    by (auto simp: test_batch_def and_then_Inr_iff model_call_Inr_iff Let_def)
  from forward_rows [OF out] p b have r: "rows outputs = length labels"
    by (simp add: paired_def)
  from mx have ps: "ps = [int (argmax (row outputs r)). r \<leftarrow> [0..<length labels]]"
    by (simp add: max_dim1_Inr_iff row_detach2 sizes_detach2 r)
  then have len: "length ps = length labels" by simp
  with eq have "eq = map2 (=) ps labels" by (simp add: eq_tensors_same_length)
  with count_equal [OF len]
  have "length (filter id eq) = length (filter (\<lambda>i. ps ! i = labels ! i) [0..<length labels])"
    by simp
  also have "\<dots> = length (filter (\<lambda>i. int (argmax (row outputs i)) = labels ! i)
                             [0..<length labels])"
    by (rule arg_cong [where f = length], rule filter_cong) (simp_all add: ps)
  finally show ?thesis using c out by (simp add: matches_def b)
qed

lemma matches_bounds: "0 \<le> matches m b \<and> matches m b \<le> int (length (snd b))"
proof -
  have "length (filter P [0..<length (snd b)]) \<le> length (snd b)" for P
    using length_filter_le [of P "[0..<length (snd b)]"] by simp
  then show ?thesis
    by (auto simp: matches_def split: sum.splits)
qed

lemma test_batches_append:
  "test_batches (xs @ ys) st = and_then (test_batches xs st) (test_batches ys)"
  by (induction xs arbitrary: st) (auto simp: and_then_def split: sum.splits)

lemma test_batches_frame:
  "test_batches bs st = Inr st' \<Longrightarrow>
     model st' = model st \<and> grads st' = grads st \<and> optimizer st' = optimizer st \<and>
     console st' = console st \<and>
     trace st' = trace st @ replicate (length bs) NoGradForward \<and>
     total st' = total st + (\<Sum>b\<leftarrow>bs. int (length (snd b)))"
proof (induction bs arbitrary: st)
  case Nil
  then show ?case by simp
next
  case (Cons b bs)
  then obtain st1 where s1: "test_batch b st = Inr st1" and s2: "test_batches bs st1 = Inr st'"
    by (auto simp: and_then_Inr_iff)
  from Cons.IH [OF s2] test_batch_frame [OF s1] show ?case
    by (simp add: replicate_append_same [symmetric] del: replicate_append_same)
qed

lemma test_batches_correct:
  "test_batches bs st = Inr st' \<Longrightarrow> \<forall>b\<in>set bs. paired b \<Longrightarrow>
     correct st' = correct st + (\<Sum>b\<leftarrow>bs. matches (model st) b)"
proof (induction bs arbitrary: st)
  case Nil
  then show ?case by simp
next
  case (Cons b bs)
  then obtain st1 where s1: "test_batch b st = Inr st1" and s2: "test_batches bs st1 = Inr st'"
    by (auto simp: and_then_Inr_iff)
  from test_batch_frame [OF s1] have m: "model st1 = model st" by simp
  from Cons.IH [OF s2] Cons.prems(2) test_batch_paired [OF s1] m show ?case by simp
qed

lemma evaluation_Inr_iff:
  "evaluation bs st = Inr st' \<longleftrightarrow>
     (\<exists>st1. test_batches bs (st\<lparr>correct := 0, total := 0\<rparr>) = Inr st1 \<and> total st1 \<noteq> 0 \<and>
        st' = st1\<lparr>console := console st1 @
                     [ACC (of_int (100 * correct st1) / of_int (total st1))],
                  trace := trace st1 @ [PrintACC]\<rparr>)"
  by (auto simp: evaluation_def and_then_Inr_iff split: if_splits)

lemma sum_matches_bounds:
  "0 \<le> (\<Sum>b\<leftarrow>bs. matches m b) \<and> (\<Sum>b\<leftarrow>bs. matches m b) \<le> (\<Sum>b\<leftarrow>bs. int (length (snd b)))"
proof (induction bs)
  case Nil
  then show ?case by simp
next
  case (Cons b bs)
  with matches_bounds [of m b] show ?case by simp
qed

lemma percentage_bounds:
  fixes c t :: int
  assumes "0 \<le> c" "c \<le> t" "0 < t"
  shows "0 \<le> (of_int (100 * c) / of_int t :: rat) \<and> (of_int (100 * c) / of_int t :: rat) \<le> 100"
proof -
  have t: "(0::rat) < of_int t" using assms by simp
  have "(of_int c :: rat) \<le> of_int t" using assms by simp
  then have "100 * (of_int c :: rat) \<le> 100 * of_int t" by simp
  with t have "100 * (of_int c :: rat) / of_int t \<le> 100"
    by (simp add: pos_divide_le_eq)
  moreover have "0 \<le> 100 * (of_int c :: rat) / of_int t"
    using assms by simp
  ultimately show ?thesis by simp
qed


lemma test_batch_succeeds:
  assumes arch: "model st = (CNN_init nc P)\<lparr>training := t\<rparr>" and nc: "0 < nc"
    and acc: "accepted (fst b)" and p: "paired b"
  shows "\<exists>st'. test_batch b st = Inr st'"
proof -
  obtain images labels where b: "b = (images, labels)" by (cases b)
  from acc b obtain outputs where out: "forward False (model st) images = Inr outputs"
    using forward_CNN_accepted [where x = images and ge = False and nc = nc and P = P and t = t] arch
    by auto
  from forward_cols [OF out] arch nc have c: "cols outputs \<noteq> 0"
    by (simp add: CNN_init_def)
  from forward_rows [OF out] p b have r: "rows outputs = length labels"
    by (simp add: paired_def)
  define ps where "ps = [int (argmax (row (detach2 outputs) r)). r \<leftarrow> [0..<rows (detach2 outputs)]]"
  have len: "length ps = length labels" by (simp add: ps_def sizes_detach2 r)
  have mx: "max_dim1 (detach2 outputs) =
              Inr ([maximum (row (detach2 outputs) r). r \<leftarrow> [0..<rows (detach2 outputs)]], ps)"
    using c by (simp add: max_dim1_def sizes_detach2 ps_def)
  show ?thesis
    unfolding b test_batch_def
    by (simp add: model_call_def out and_then_def mx eq_tensors_same_length [OF len] Let_def)
qed

lemma test_batches_succeeds:
  assumes arch: "model st = (CNN_init nc P)\<lparr>training := t\<rparr>" and nc: "0 < nc"
    and acc: "\<forall>b\<in>set bs. accepted (fst b) \<and> paired b"
  shows "\<exists>st'. test_batches bs st = Inr st'"
  using arch acc
proof (induction bs arbitrary: st)
  case Nil
  then show ?case by simp
next
  case (Cons b bs)
  from test_batch_succeeds [OF Cons.prems(1) nc, of b] Cons.prems(2)
  obtain st1 where s1: "test_batch b st = Inr st1" by auto
  from test_batch_frame [OF s1] Cons.prems(1)
  have "model st1 = (CNN_init nc P)\<lparr>training := t\<rparr>" by simp
  from Cons.IH [OF this] Cons.prems(2) obtain st' where "test_batches bs st1 = Inr st'"
    by auto
  with s1 show ?case by (simp add: and_then_def)
qed

lemma sum_sizes_pos:
  "bs \<noteq> [] \<Longrightarrow> \<forall>b\<in>set bs. accepted (fst b) \<and> paired b \<Longrightarrow>
     0 < (\<Sum>b\<leftarrow>bs. int (length (snd b)))"
proof (induction bs)
  case Nil
  then show ?case by simp
next
  case (Cons b bs)
  then have a: "0 < int (length (snd b))" by (auto simp: accepted_def paired_def)
  have c: "0 \<le> (\<Sum>b\<leftarrow>bs. int (length (snd b)))"
    by (induction bs) simp_all
  from add_pos_nonneg [OF a c] show ?case by simp
qed

lemma evaluation_succeeds:
  assumes arch: "model st = (CNN_init nc P)\<lparr>training := t\<rparr>" and nc: "0 < nc"
    and ne: "bs \<noteq> []"
    and acc: "\<forall>b\<in>set bs. accepted (fst b) \<and> paired b"
  shows "\<exists>st'. evaluation bs st = Inr st'"
proof -
  from test_batches_succeeds [where st = "st\<lparr>correct := 0, total := 0\<rparr>" and P = P and t = t, OF _ nc acc] arch
  obtain st1 where s1: "test_batches bs (st\<lparr>correct := 0, total := 0\<rparr>) = Inr st1" by auto
  from test_batches_frame [OF s1] sum_sizes_pos [OF ne acc] have "total st1 \<noteq> 0" by simp
  with s1 show ?thesis by (simp add: evaluation_Inr_iff)
qed

lemma toy_criterion: "\<exists>v. criterion toy_library out ls = Inr v"
  by (simp add: toy_library_def)

lemma accepted_zeros: "accepted (zeros 4 1 28 28)"
  by (simp add: accepted_def zeros_def)

lemma session0_model: "model session0 = (CNN_init 10 (zero_params 10))\<lparr>training := True\<rparr>"
  by (simp add: session0_def CNN_init_def)

lemma test_batches_invariant:
  "test_batches bs st = Inr st' \<Longrightarrow> \<forall>b\<in>set bs. paired b \<Longrightarrow>
     0 \<le> correct st \<and> correct st \<le> total st \<Longrightarrow> 0 \<le> correct st' \<and> correct st' \<le> total st'"
proof -
  assume s: "test_batches bs st = Inr st'" and p: "\<forall>b\<in>set bs. paired b"
    and i: "0 \<le> correct st \<and> correct st \<le> total st"
  from test_batches_frame [OF s] test_batches_correct [OF s p] sum_matches_bounds [of "model st" bs] i
  show ?thesis by simp
qed

section \<open>The claims\<close>

text \<open>
  C1. The forward computation of the model is, in this order: a 2D convolution from 1 to
  16 channels (kernel 5, stride 1, padding 2), ReLU, 2x2 max-pooling with stride 2; a
  convolution from 16 to 32 channels with the same kernel, stride and padding, ReLU, the
  same pooling; the reshape of each sample into one row; and one fully-connected layer
  from 1568 features to \<open>num_classes\<close> outputs. Nothing else is applied.
\<close>

theorem forward_is_two_blocks_and_classifier:
  "forward ge (CNN_init num_classes P) x =
     and_then (Conv2d_forward ge
                 \<lparr>in_channels = 1, out_channels = 16, kernel_size = 5, stride = 1,
                  padding = 2, weight = conv1_weight P, bias = conv1_bias P\<rparr> x) (\<lambda>a1.
     and_then (ReLU_forward ge a1) (\<lambda>a2.
     and_then (MaxPool2d_forward ge 2 2 a2) (\<lambda>a3.
     and_then (Conv2d_forward ge
                 \<lparr>in_channels = 16, out_channels = 32, kernel_size = 5, stride = 1,
                  padding = 2, weight = conv2_weight P, bias = conv2_bias P\<rparr> a3) (\<lambda>a4.
     and_then (ReLU_forward ge a4) (\<lambda>a5.
     and_then (MaxPool2d_forward ge 2 2 a5) (\<lambda>a6.
     and_then (reshape_rows (batch a6) a6) (\<lambda>a7.
     Linear_forward ge
       \<lparr>in_features = 1568, out_features = num_classes,
        fc_weight = fc1_weight P, fc_bias = fc1_bias P\<rparr> a7)))))))"
  by (simp add: forward_def CNN_init_def and_then_def split: sum.splits)

text \<open>
  C2. Whenever the forward pass succeeds, its output has as many rows as the input has
  samples (axis 0).
\<close>

theorem forward_preserves_batch:
  "forward ge m x = Inr y \<Longrightarrow> rows y = batch x"
  by (rule forward_rows)

theorem forward_preserves_batch_witness:
  "\<exists>y. forward True (CNN_init 10 (zero_params 10)) (zeros 2 1 28 28) = Inr y \<and> rows y = 2"
proof -
  have "0 < batch (zeros 2 1 28 28) \<and> channels (zeros 2 1 28 28) = 1 \<and>
        (height (zeros 2 1 28 28) div 4) * (width (zeros 2 1 28 28) div 4) = 49"
    by (simp add: zeros_def)
  then obtain y where y: "forward True (CNN_init 10 (zero_params 10)) (zeros 2 1 28 28) = Inr y"
    using forward_CNN_Inr_iff [of True 10 "zero_params 10" "zeros 2 1 28 28"] by blast
  from forward_preserves_batch [OF y] have "rows y = 2"
    by (simp add: zeros_def)
  with y show ?thesis by blast
qed

text \<open>
  C3. For every input and every parameter state, the forward pass under
  \<^verbatim>\<open>torch.no_grad()\<close> with the model in eval mode gives the same sizes and the same
  elements (or the same error) as the forward pass with gradient tracking on and the model
  in training mode. The two results differ at most in the flag \<^verbatim>\<open>requires_grad\<close>, which
  \<open>detach2\<close> (\<^verbatim>\<open>.data\<close>) drops.
\<close>

theorem no_grad_same_outputs:
  "map_sum id detach2 (forward False (m\<lparr>training := False\<rparr>) x) =
   map_sum id detach2 (forward True (m\<lparr>training := True\<rparr>) x)"
  by (rule forward_detach) simp_all

text \<open>
  C4. When the cells run through, the training loop has made, for each of the
  \<open>num_epoch\<close> epochs and within it for each batch of the loader in turn, the calls
  forward pass, loss, (clearing of the gradients,) backward pass and one optimizer step,
  each batch to its end before the next one starts; the switch to eval mode, the forward
  passes without gradients and the print of the accuracy come after all of them.
\<close>

theorem training_then_evaluation_order:
  assumes "run_cells T num_epoch train_loader test_loader st = Inr st'"
  shows "\<exists>st1. train T num_epoch train_loader st = Inr st1 \<and>
           trace st1 = trace st @ training_events num_epoch train_loader \<and>
           trace st' = trace st1 @ EvalMode # evaluation_events test_loader"
proof -
  from assms obtain st1 where s1: "train T num_epoch train_loader st = Inr st1"
    and s2: "evaluation test_loader (model_eval st1) = Inr st'"
    by (auto simp: run_cells_def and_then_Inr_iff)
  from s2 obtain st2 where
    s3: "test_batches test_loader ((model_eval st1)\<lparr>correct := 0, total := 0\<rparr>) = Inr st2"
    and s4: "trace st' = trace st2 @ [PrintACC]"
    by (auto simp: evaluation_Inr_iff)
  from test_batches_frame [OF s3] s4
  have "trace st' = trace st1 @ EvalMode # evaluation_events test_loader"
    by (simp add: model_eval_def evaluation_events_def)
  with s1 train_trace [OF s1] show ?thesis by blast
qed

theorem training_then_evaluation_order_witness:
  "\<exists>st'. run_cells toy_library 2 (\<lambda>epoch. [(zeros 4 1 28 28, [7, 2, 1, 0]), (zeros 4 1 28 28, [4, 1, 4, 9])])
            [(zeros 4 1 28 28, [5, 9, 0, 6])] session0 = Inr st' \<and>
         trace st' =
           [Forward 0 0, Loss 0 0, ZeroGrad 0 0, Backward 0 0, Step 0 0,
            Forward 0 1, Loss 0 1, ZeroGrad 0 1, Backward 0 1, Step 0 1,
            Forward 1 0, Loss 1 0, ZeroGrad 1 0, Backward 1 0, Step 1 0,
            Forward 1 1, Loss 1 1, ZeroGrad 1 1, Backward 1 1, Step 1 1,
            EvalMode, NoGradForward, PrintACC]"
proof -
  let ?tr = "\<lambda>epoch::nat. [(zeros 4 1 28 28, [7, 2, 1, 0]), (zeros 4 1 28 28, [4, 1, 4, 9::int])]"
  let ?te = "[(zeros 4 1 28 28, [5, 9, 0, 6::int])]"
  have a1: "\<forall>epoch<2. \<forall>b\<in>set (?tr epoch). accepted (fst b)"
    using accepted_zeros by simp
  from train_succeeds [OF session0_model a1 toy_criterion]
  obtain st1 P1 where s1: "train toy_library 2 ?tr session0 = Inr st1"
    and m1: "model st1 = (CNN_init 10 P1)\<lparr>training := True\<rparr>"
    by blast
  have m2: "model (model_eval st1) = (CNN_init 10 P1)\<lparr>training := False\<rparr>"
    by (simp add: model_eval_def m1)
  have a2: "\<forall>b\<in>set ?te. accepted (fst b) \<and> paired b"
    using accepted_zeros by (simp add: paired_def zeros_def)
  from evaluation_succeeds [OF m2 _ _ a2]
  obtain st' where s2: "evaluation ?te (model_eval st1) = Inr st'"
    by auto
  from s1 s2 have r: "run_cells toy_library 2 ?tr ?te session0 = Inr st'"
    by (simp add: run_cells_def and_then_def)
  from training_then_evaluation_order [OF r] s1
  have "trace st' = trace session0 @ training_events 2 ?tr @ EvalMode # evaluation_events ?te"
    by auto
  then have "trace st' =
           [Forward 0 0, Loss 0 0, ZeroGrad 0 0, Backward 0 0, Step 0 0,
            Forward 0 1, Loss 0 1, ZeroGrad 0 1, Backward 0 1, Step 0 1,
            Forward 1 0, Loss 1 0, ZeroGrad 1 0, Backward 1 0, Step 1 0,
            Forward 1 1, Loss 1 1, ZeroGrad 1 1, Backward 1 1, Step 1 1,
            EvalMode, NoGradForward, PrintACC]"
    by (simp add: session0_def training_events_def evaluation_events_def batch_events_def upt_rec)
  with r show ?thesis by blast
qed

text \<open>
  C5. The evaluation block sets \<open>correct\<close> and \<open>total\<close> to 0, whatever they held. When
  it runs through, \<open>total\<close> is the number of labels of all batches of the test loader;
  \<open>correct\<close> is, for batches of as many labels as images (as the loader stacks them),
  the number of positions at which the index of the greatest output is the label; the
  one line added to the console is 100 * correct / total; and the model, the gradients
  and the optimizer are as before.
\<close>

theorem evaluation_counts_and_prints:
  assumes "evaluation bs st = Inr st'"
  shows "total st' = (\<Sum>b\<leftarrow>bs. int (length (snd b))) \<and>
         ((\<forall>b\<in>set bs. paired b) \<longrightarrow> correct st' = (\<Sum>b\<leftarrow>bs. matches (model st) b)) \<and>
         console st' = console st @ [ACC (of_int (100 * correct st') / of_int (total st'))] \<and>
         model st' = model st \<and> grads st' = grads st \<and> optimizer st' = optimizer st"
proof -
  from assms obtain st1 where
    s1: "test_batches bs (st\<lparr>correct := 0, total := 0\<rparr>) = Inr st1" and
    s2: "st' = st1\<lparr>console := console st1 @
                     [ACC (of_int (100 * correct st1) / of_int (total st1))],
                  trace := trace st1 @ [PrintACC]\<rparr>"
    by (auto simp: evaluation_Inr_iff)
  note f = test_batches_frame [OF s1]
  have c: "(\<forall>b\<in>set bs. paired b) \<longrightarrow> correct st1 = (\<Sum>b\<leftarrow>bs. matches (model st) b)"
    using test_batches_correct [OF s1] by simp
  from f c s2 show ?thesis by simp
qed

theorem evaluation_counts_and_prints_witness:
  "\<exists>st'. evaluation [(zeros 4 1 28 28, [7, 2, 1, 0]), (zeros 4 1 28 28, [4, 1, 4, 9])]
            (session0\<lparr>correct := 5, total := 3\<rparr>) = Inr st' \<and>
         total st' = 8 \<and>
         correct st' = matches (model session0) (zeros 4 1 28 28, [7, 2, 1, 0]) +
                       matches (model session0) (zeros 4 1 28 28, [4, 1, 4, 9]) \<and>
         console st' = [ACC (of_int (100 * correct st') / 8)]"
proof -
  let ?bs = "[(zeros 4 1 28 28, [7, 2, 1, 0]), (zeros 4 1 28 28, [4, 1, 4, 9::int])]"
  let ?st = "session0\<lparr>correct := 5, total := 3\<rparr>"
  have m: "model ?st = (CNN_init 10 (zero_params 10))\<lparr>training := True\<rparr>"
    by (simp add: session0_model)
  have a: "\<forall>b\<in>set ?bs. accepted (fst b) \<and> paired b"
    using accepted_zeros by (simp add: paired_def zeros_def)
  from evaluation_succeeds [OF m _ _ a] obtain st' where s: "evaluation ?bs ?st = Inr st'"
    by auto
  from a have p: "\<forall>b\<in>set ?bs. paired b" by blast
  from evaluation_counts_and_prints [OF s] p
  have "total st' = 8 \<and>
         correct st' = matches (model session0) (zeros 4 1 28 28, [7, 2, 1, 0]) +
                       matches (model session0) (zeros 4 1 28 28, [4, 1, 4, 9]) \<and>
         console st' = [ACC (of_int (100 * correct st') / 8)]"
    by (simp add: session0_def)
  with s show ?thesis by blast
qed

text \<open>
  C8. The evaluation block leaves the model as it was, so every parameter tensor keeps
  its values; \<^verbatim>\<open>model.eval()\<close> changes no parameter either. In a training step the
  forward pass, the loss, the clearing of the gradients and the backward pass leave the
  model alone: the state after the step is the optimizer step applied to a state that
  still holds the model from before the step.
\<close>

theorem parameters_change_only_in_optimizer_step:
  "(evaluation bs st = Inr st' \<longrightarrow> model st' = model st) \<and>
   parameters (model (model_eval st)) = parameters (model st) \<and>
   (train_batch T epoch i b st = Inr st'' \<longrightarrow>
      (\<exists>st3. model st3 = model st \<and> st'' = optimizer_step T (Step epoch i) st3))"
proof (intro conjI impI)
  assume "evaluation bs st = Inr st'"
  then obtain st1 where
    s1: "test_batches bs (st\<lparr>correct := 0, total := 0\<rparr>) = Inr st1" and
    s2: "st' = st1\<lparr>console := console st1 @
                     [ACC (of_int (100 * correct st1) / of_int (total st1))],
                  trace := trace st1 @ [PrintACC]\<rparr>"
    by (auto simp: evaluation_Inr_iff)
  from test_batches_frame [OF s1] s2 show "model st' = model st" by simp
next
  show "parameters (model (model_eval st)) = parameters (model st)"
    by (simp add: model_eval_def parameters_def)
next
  assume "train_batch T epoch i b st = Inr st''"
  from train_batch_Inr [OF this]
  show "\<exists>st3. model st3 = model st \<and> st'' = optimizer_step T (Step epoch i) st3"
    by blast
qed

theorem parameters_change_only_in_optimizer_step_witness:
  "\<exists>st' st''.
     evaluation [(zeros 4 1 28 28, [7, 2, 1, 0])] session0 = Inr st' \<and>
     model st' = model session0 \<and>
     parameters (model (model_eval session0)) = parameters (model session0) \<and>
     train_batch toy_library 0 0 (zeros 4 1 28 28, [7, 2, 1, 0]) session0 = Inr st'' \<and>
     (\<exists>st3. model st3 = model session0 \<and> st'' = optimizer_step toy_library (Step 0 0) st3)"
proof -
  let ?b = "(zeros 4 1 28 28, [7, 2, 1, 0::int])"
  have a: "\<forall>b\<in>set [?b]. accepted (fst b) \<and> paired b"
    using accepted_zeros by (simp add: paired_def zeros_def)
  from evaluation_succeeds [OF session0_model _ _ a]
  obtain st' where s: "evaluation [?b] session0 = Inr st'" by auto
  have "accepted (fst ?b)" using accepted_zeros by simp
  from train_batch_succeeds [OF session0_model this toy_criterion]
  obtain st'' where t: "train_batch toy_library 0 0 ?b session0 = Inr st''" by blast
  from parameters_change_only_in_optimizer_step [of "[?b]" session0 st' toy_library 0 0 ?b st''] s t
  show ?thesis by blast
qed

text \<open>
  C9, as the spec states it: the forward pass succeeds only on input of shape
  batch x 1 x 28 x 28. It fails: the pooling layers round down, and one 29 x 29 image
  passes through the model.
\<close>

theorem forward_only_28x28_counterexample:
  "shape4 (zeros 1 1 29 29) = [1, 1, 29, 29] \<and>
   \<not> isl (forward True (CNN_init 10 (zero_params 10)) (zeros 1 1 29 29))"
proof -
  have "0 < batch (zeros 1 1 29 29) \<and> channels (zeros 1 1 29 29) = 1 \<and>
        (height (zeros 1 1 29 29) div 4) * (width (zeros 1 1 29 29) div 4) = 49"
    by (simp add: zeros_def)
  then obtain y where "forward True (CNN_init 10 (zero_params 10)) (zeros 1 1 29 29) = Inr y"
    using forward_CNN_Inr_iff [of True 10 "zero_params 10" "zeros 1 1 29 29"] by blast
  then show ?thesis by (simp add: shape4_def zeros_def)
qed

text \<open>
  C9, amended. On an input of N samples with C channels of H x W pixels the forward pass
  succeeds exactly when N is at least 1, C is 1 and (H div 4) * (W div 4) = 49, that is
  when the two pooling stages leave the 1568 features that the fully-connected layer
  takes. It succeeds on 28 x 28 images with one channel, and it fails for every other
  number of channels.
\<close>

theorem forward_succeeds_iff:
  "(\<exists>y. forward ge (CNN_init num_classes P) x = Inr y) \<longleftrightarrow>
     0 < batch x \<and> channels x = 1 \<and> (height x div 4) * (width x div 4) = 49"
  by (rule forward_CNN_Inr_iff)

theorem forward_succeeds_iff_witness:
  "(\<exists>y. forward False (CNN_init 10 (zero_params 10)) (zeros 4 1 28 28) = Inr y) \<and>
   isl (forward False (CNN_init 10 (zero_params 10)) (zeros 4 3 28 28)) \<and>
   isl (forward False (CNN_init 10 (zero_params 10)) (zeros 4 1 32 32))"
proof -
  have a: "\<exists>y. forward False (CNN_init 10 (zero_params 10)) (zeros 4 1 28 28) = Inr y"
    using forward_succeeds_iff [of False 10 "zero_params 10" "zeros 4 1 28 28"]
    by (simp add: zeros_def)
  have "\<not> (\<exists>y. forward False (CNN_init 10 (zero_params 10)) (zeros 4 3 28 28) = Inr y)"
    using forward_succeeds_iff [of False 10 "zero_params 10" "zeros 4 3 28 28"]
    by (simp add: zeros_def)
  then have b: "isl (forward False (CNN_init 10 (zero_params 10)) (zeros 4 3 28 28))"
    by (cases "forward False (CNN_init 10 (zero_params 10)) (zeros 4 3 28 28)") auto
  have "\<not> (\<exists>y. forward False (CNN_init 10 (zero_params 10)) (zeros 4 1 32 32) = Inr y)"
    using forward_succeeds_iff [of False 10 "zero_params 10" "zeros 4 1 32 32"]
    by (simp add: zeros_def)
  then have c: "isl (forward False (CNN_init 10 (zero_params 10)) (zeros 4 1 32 32))"
    by (cases "forward False (CNN_init 10 (zero_params 10)) (zeros 4 1 32 32)") auto
  from a b c show ?thesis by blast
qed

text \<open>
  C10. For batches of as many labels as images: after each batch of the evaluation block
  (after the first \<open>k\<close> batches, for every \<open>k\<close>) the counters satisfy
  0 \<le> correct \<le> total. When the block runs through, \<open>total\<close> is positive and the
  accuracy it prints lies between 0 and 100.
\<close>

theorem counters_invariant:
  assumes p: "\<forall>b\<in>set bs. paired b" and ok: "evaluation bs st = Inr st'"
  shows "(\<forall>k\<le>length bs. \<exists>sk. test_batches (take k bs) (st\<lparr>correct := 0, total := 0\<rparr>) = Inr sk \<and>
            0 \<le> correct sk \<and> correct sk \<le> total sk) \<and>
         0 < total st' \<and>
         (\<exists>a. console st' = console st @ [ACC a] \<and> 0 \<le> a \<and> a \<le> 100)"
proof -
  let ?st0 = "st\<lparr>correct := 0, total := 0\<rparr>"
  from ok obtain st1 where
    s1: "test_batches bs ?st0 = Inr st1" and nz: "total st1 \<noteq> 0" and
    s2: "st' = st1\<lparr>console := console st1 @
                     [ACC (of_int (100 * correct st1) / of_int (total st1))],
                  trace := trace st1 @ [PrintACC]\<rparr>"
    by (auto simp: evaluation_Inr_iff)
  have pre: "\<exists>sk. test_batches (take k bs) ?st0 = Inr sk \<and> 0 \<le> correct sk \<and> correct sk \<le> total sk"
    for k
  proof -
    have "test_batches (take k bs @ drop k bs) ?st0 = Inr st1" using s1 by simp
    then obtain sk where sk: "test_batches (take k bs) ?st0 = Inr sk"
      unfolding test_batches_append by (auto simp: and_then_Inr_iff)
    have "\<forall>b\<in>set (take k bs). paired b" using p by (auto dest: in_set_takeD)
    from test_batches_invariant [OF sk this] sk show ?thesis by simp
  qed
  from test_batches_invariant [OF s1 p] have inv: "0 \<le> correct st1 \<and> correct st1 \<le> total st1"
    by simp
  with nz have pos: "0 < total st1" by simp
  from percentage_bounds [of "correct st1" "total st1"] inv pos
  have "0 \<le> (of_int (100 * correct st1) / of_int (total st1) :: rat) \<and>
        (of_int (100 * correct st1) / of_int (total st1) :: rat) \<le> 100"
    by simp
  moreover from test_batches_frame [OF s1] s2
  have "console st' = console st @ [ACC (of_int (100 * correct st1) / of_int (total st1))]"
    by simp
  moreover from s2 pos have "0 < total st'" by simp
  ultimately show ?thesis using pre by blast
qed

theorem counters_invariant_witness:
  "\<exists>st' sk a.
     evaluation [(zeros 4 1 28 28, [7, 2, 1, 0]), (zeros 4 1 28 28, [4, 1, 4, 9])] session0 = Inr st' \<and>
     test_batches (take 1 [(zeros 4 1 28 28, [7, 2, 1, 0]), (zeros 4 1 28 28, [4, 1, 4, 9])])
       (session0\<lparr>correct := 0, total := 0\<rparr>) = Inr sk \<and>
     0 \<le> correct sk \<and> correct sk \<le> total sk \<and> 0 < total st' \<and>
     console st' = [ACC a] \<and> 0 \<le> a \<and> a \<le> 100"
proof -
  let ?bs = "[(zeros 4 1 28 28, [7, 2, 1, 0]), (zeros 4 1 28 28, [4, 1, 4, 9::int])]"
  have a: "\<forall>b\<in>set ?bs. accepted (fst b) \<and> paired b"
    using accepted_zeros by (simp add: paired_def zeros_def)
  from evaluation_succeeds [OF session0_model _ _ a] obtain st' where s: "evaluation ?bs session0 = Inr st'"
    by auto
  from a have p: "\<forall>b\<in>set ?bs. paired b" by blast
  note c = counters_invariant [OF p s]
  from c have "\<exists>sk. test_batches (take 1 ?bs) (session0\<lparr>correct := 0, total := 0\<rparr>) = Inr sk \<and>
            0 \<le> correct sk \<and> correct sk \<le> total sk"
    by (elim conjE allE [of _ 1]) simp
  moreover from c have "0 < total st'" by blast
  moreover from c have "\<exists>a. console st' = [ACC a] \<and> 0 \<le> a \<and> a \<le> 100"
    by (simp add: session0_def)
  ultimately show ?thesis using s by blast
qed

end
